theory Spec2Isabelle
  imports Main "HOL-Library.Sublist"
begin

section \<open>JavaScript values used by the generator\<close>

text \<open>
  Strings are lists of characters.  A JavaScript object that the script uses as a
  dictionary is an association list with distinct keys, kept in insertion order:
  assigning to a key that is present replaces the value in place, assigning to a new key
  appends it.  Keys that name an inherited member of \<open>Object.prototype\<close> (such as
  \<open>__proto__\<close>) are not given their special meaning here: every key is an ordinary one.
\<close>

type_synonym path = string

type_synonym 'v obj = "(string \<times> 'v) list"

definition obj_get :: "'v obj \<Rightarrow> string \<Rightarrow> 'v option" where
  "obj_get ob k = map_of ob k"

fun obj_set :: "'v obj \<Rightarrow> string \<Rightarrow> 'v \<Rightarrow> 'v obj" where
  "obj_set [] k v = [(k, v)]"
| "obj_set ((k', v') # ob) k v =
     (if k' = k then (k, v) # ob else (k', v') # obj_set ob k v)"

definition obj_keys :: "'v obj \<Rightarrow> string list" where
  "obj_keys ob = map fst ob"

text \<open>
  \<open>for (const k in ob)\<close> visits the keys that are array indices first, in ascending
  numeric order, and then the other keys in insertion order.  An array index is a
  canonical decimal numeral below \<open>2^32 - 1\<close>.
\<close>

definition is_digit :: "char \<Rightarrow> bool" where
  "is_digit c = (c \<in> set ''0123456789'')"

definition digit_val :: "char \<Rightarrow> nat" where
  "digit_val c = of_char c - 48"

definition numeral_val :: "string \<Rightarrow> nat" where
  "numeral_val s = foldl (\<lambda>n c. 10 * n + digit_val c) 0 s"

definition is_array_index :: "string \<Rightarrow> bool" where
  "is_array_index s =
     (s \<noteq> [] \<and> list_all is_digit s \<and> (s = ''0'' \<or> hd s \<noteq> CHR ''0'')
      \<and> numeral_val s < 2 ^ 32 - 1)"

definition for_in_keys :: "'v obj \<Rightarrow> string list" where
  "for_in_keys ob =
     sort_key numeral_val (filter is_array_index (obj_keys ob))
     @ filter (\<lambda>k. \<not> is_array_index k) (obj_keys ob)"

subsection \<open>String operations\<close>

definition endsWith :: "string \<Rightarrow> string \<Rightarrow> bool" where
  "endsWith s suf = (length suf \<le> length s \<and> drop (length s - length suf) s = suf)"

text \<open>\<open>s.slice(0, -n)\<close> for \<open>n > 0\<close>.\<close>

definition slice_end :: "string \<Rightarrow> nat \<Rightarrow> string" where
  "slice_end s n = take (length s - n) s"

text \<open>\<open>content.includes(p)\<close>: \<open>p\<close> occurs in \<open>content\<close> as a contiguous substring.\<close>

fun str_includes :: "string \<Rightarrow> string \<Rightarrow> bool" where
  "str_includes [] p = (p = [])"
| "str_includes (c # cs) p = (prefix p (c # cs) \<or> str_includes cs p)"

text \<open>
  \<open>s.split(c)\<close> for a one-character separator, and \<open>xs.join(sep)\<close>.  Splitting the
  empty string gives one empty piece.
\<close>

fun split_on :: "char \<Rightarrow> string \<Rightarrow> string list" where
  "split_on c [] = [[]]"
| "split_on c (x # xs) =
     (if x = c then [] # split_on c xs
      else (case split_on c xs of y # ys \<Rightarrow> (x # y) # ys | [] \<Rightarrow> [[x]]))"

fun join_with :: "string \<Rightarrow> string list \<Rightarrow> string" where
  "join_with sep [] = []"
| "join_with sep [x] = x"
| "join_with sep (x # y # ys) = x @ sep @ join_with sep (y # ys)"

text \<open>
  \<open>s.trim()\<close> removes white space and line terminators at both ends.  Characters are
  eight-bit here, so the white space characters are the six ASCII ones and the no-break
  space.
\<close>

definition is_ws :: "char \<Rightarrow> bool" where
  "is_ws c = (c \<in> {CHR 0x09, CHR 0x0A, CHR 0x0B, CHR 0x0C, CHR 0x0D, CHR 0x20, CHR 0xA0})"

definition trim :: "string \<Rightarrow> string" where
  "trim s = rev (dropWhile is_ws (rev (dropWhile is_ws s)))"

text \<open>
  \<open>path.basename\<close> applied to a module path.  Module paths come from the file scan,
  which separates segments with \<open>/\<close> on every host; the last segment is taken, trailing
  separators ignored.
\<close>

definition basename :: "path \<Rightarrow> string" where
  "basename p =
     rev (takeWhile (\<lambda>c. c \<noteq> CHR ''/'') (dropWhile (\<lambda>c. c = CHR ''/'') (rev p)))"

text \<open>\<open>s.replace(/\\/g, '/')\<close>: every backslash becomes a forward slash.\<close>

definition unbackslash :: "string \<Rightarrow> string" where
  "unbackslash s = map (\<lambda>c. if c = CHR 0x5C then CHR ''/'' else c) s"

section \<open>The host: file system, console and library functions\<close>

datatype node = File string | Dir

type_synonym fsys = "path \<Rightarrow> node option"

datatype error =
    IOError path
  | SyntaxError
  | TypeError

datatype event =
    Warn_skipping path string
  | Err_unknown_argument string
  | Err_usage
  | Err_build_dir path
  | Err_override_pkg path
  | Err_no_pkg path path
  | Err_unexpected error
  | Log_updated path "string list"

definition existsSync :: "fsys \<Rightarrow> path \<Rightarrow> bool" where
  "existsSync fs p = (fs p \<noteq> None)"

definition isDirectory :: "fsys \<Rightarrow> path \<Rightarrow> bool" where
  "isDirectory fs p = (fs p = Some Dir)"

definition readFileSync :: "fsys \<Rightarrow> path \<Rightarrow> error + string" where
  "readFileSync fs p = (case fs p of Some (File c) \<Rightarrow> Inr c | _ \<Rightarrow> Inl (IOError p))"

definition writeFileSync :: "fsys \<Rightarrow> path \<Rightarrow> string \<Rightarrow> error + fsys" where
  "writeFileSync fs p c = (case fs p of Some Dir \<Rightarrow> Inl (IOError p) | _ \<Rightarrow> Inr (fs(p \<mapsto> File c)))"

text \<open>
  The functions of the \<open>path\<close> module are library code of the host; the generator is
  modelled over any choice of them.
\<close>

record pathlib =
  path_join :: "path \<Rightarrow> path \<Rightarrow> path"
  path_relative :: "path \<Rightarrow> path \<Rightarrow> path"
  path_resolve :: "path \<Rightarrow> path \<Rightarrow> path"
  path_dirname :: "path \<Rightarrow> path"

section \<open>Building the exports map\<close>

text \<open>A group is the object \<open>{ js?: file, dts?: file }\<close> stored under a module path.\<close>

record group =
  js :: "string option"
  dts :: "string option"

definition empty_group :: group where
  "empty_group = \<lparr>js = None, dts = None\<rparr>"

text \<open>\<open>ob[base] || {}\<close>: the group stored under a module path, or a fresh empty one.\<close>

definition group_or_empty :: "group obj \<Rightarrow> string \<Rightarrow> group" where
  "group_or_empty ob base = (case obj_get ob base of Some g \<Rightarrow> g | None \<Rightarrow> empty_group)"

text \<open>One step of the grouping \<open>reduce\<close> (step 1 of \<open>buildExportsMap\<close>).\<close>

definition group_step :: "group obj \<Rightarrow> string \<Rightarrow> group obj" where
  "group_step acc file =
     (if endsWith file ''.js'' then
        (let base = slice_end file 3;
             g = group_or_empty acc base
         in obj_set acc base (g\<lparr>js := Some file\<rparr>))
      else if endsWith file ''.d.ts'' then
        (let base = slice_end file 5;
             g = group_or_empty acc base
         in obj_set acc base (g\<lparr>dts := Some file\<rparr>))
      else acc)"

definition grouped :: "string list \<Rightarrow> group obj" where
  "grouped files = foldl group_step [] files"

text \<open>\<open>checkReserved\<close>: reads the file; a hit is reported as a warning.\<close>

definition checkReserved ::
  "pathlib \<Rightarrow> fsys \<Rightarrow> string \<Rightarrow> path \<Rightarrow> string \<Rightarrow> error + (bool \<times> event list)" where
  "checkReserved pl fs fileToCheck distDir placeholder =
     (case readFileSync fs (path_join pl distDir fileToCheck) of
        Inl e \<Rightarrow> Inl e
      | Inr content \<Rightarrow>
          if str_includes content placeholder
          then Inr (True, [Warn_skipping fileToCheck placeholder])
          else Inr (False, []))"

text \<open>An export descriptor is the object \<open>entry\<close>, its fields in assignment order.\<close>

type_synonym entry = "string obj"

definition make_entry :: "pathlib \<Rightarrow> path \<Rightarrow> path \<Rightarrow> group \<Rightarrow> entry" where
  "make_entry pl distDir pkgDir g =
     (let e0 = [];
          e1 = (case js g of
                  Some jsFile \<Rightarrow>
                    (let relJs = unbackslash (path_relative pl pkgDir (path_join pl distDir jsFile))
                     in obj_set (obj_set e0 ''import'' (''./'' @ relJs)) ''require'' (''./'' @ relJs))
                | None \<Rightarrow> e0)
      in (case dts g of
            Some dtsFile \<Rightarrow>
              (let relDts = unbackslash (path_relative pl pkgDir (path_join pl distDir dtsFile))
               in obj_set e1 ''types'' (''./'' @ relDts))
          | None \<Rightarrow> e1))"

record opts =
  distDir :: path
  pkgDir :: path
  excludeNames :: "string list"
  placeholder :: string

text \<open>
  Step 2 of \<open>buildExportsMap\<close>: the loop over the module paths, carrying the exports
  map built so far and the console output; a read error aborts the loop, leaving what
  was printed before it.
\<close>

fun build_loop ::
  "pathlib \<Rightarrow> fsys \<Rightarrow> opts \<Rightarrow> group obj \<Rightarrow> string list \<Rightarrow> entry obj \<times> event list
     \<Rightarrow> (error \<times> event list) + (entry obj \<times> event list)" where
  "build_loop pl fs os gr [] st = Inr st"
| "build_loop pl fs os gr (base # bases) (exportsMap, out) =
     (if basename base \<in> set (excludeNames os) then build_loop pl fs os gr bases (exportsMap, out)
      else
        let g = group_or_empty gr base in
        case (case js g of
                Some jsFile \<Rightarrow> checkReserved pl fs jsFile (distDir os) (placeholder os)
              | None \<Rightarrow> Inr (False, [])) of
          Inl e \<Rightarrow> Inl (e, out)
        | Inr (True, w) \<Rightarrow> build_loop pl fs os gr bases (exportsMap, out @ w)
        | Inr (False, w) \<Rightarrow>
            (case (case dts g of
                     Some dtsFile \<Rightarrow> checkReserved pl fs dtsFile (distDir os) (placeholder os)
                   | None \<Rightarrow> Inr (False, [])) of
               Inl e \<Rightarrow> Inl (e, out @ w)
             | Inr (True, w') \<Rightarrow> build_loop pl fs os gr bases (exportsMap, out @ w @ w')
             | Inr (False, w') \<Rightarrow>
                 build_loop pl fs os gr bases
                   (obj_set exportsMap (''./'' @ base) (make_entry pl (distDir os) (pkgDir os) g),
                    out @ w @ w')))"

definition buildExportsMap ::
  "pathlib \<Rightarrow> fsys \<Rightarrow> string list \<Rightarrow> opts
     \<Rightarrow> (error \<times> event list) + (entry obj \<times> event list)" where
  "buildExportsMap pl fs files os =
     build_loop pl fs os (grouped files) (for_in_keys (grouped files)) ([], [])"

section \<open>Command line\<close>

text \<open>
  The options returned by \<open>parseCliArgs\<close>.  \<open>pkgPathArg\<close> is \<open>None\<close> while undefined.
  Printing the usage text ends the process with exit code 1, so a usage error is the
  list of lines printed on the way.
\<close>

record cli =
  buildDirArg :: string
  cli_excludeNames :: "string list"
  pkgPathArg :: "string option"
  cli_placeholder :: string

text \<open>\<open>v.split(',').map(s => s.trim()).filter(Boolean)\<close>\<close>

definition exclude_list :: "string \<Rightarrow> string list" where
  "exclude_list v = filter (\<lambda>s. s \<noteq> []) (map trim (split_on (CHR '','') v))"

text \<open>
  The loop over \<open>argv[1..]\<close>.  A flag takes the next argument as its value when that
  argument is truthy, that is, present and not the empty string.
\<close>

fun parse_flags :: "string list \<Rightarrow> cli \<Rightarrow> event list + cli" where
  "parse_flags [] c = Inr c"
| "parse_flags [arg] c = Inl [Err_unknown_argument arg, Err_usage]"
| "parse_flags (arg # v # rest) c =
     (if (arg = ''-i'' \<or> arg = ''--exclude'') \<and> v \<noteq> [] then
        parse_flags rest (c\<lparr>cli_excludeNames := exclude_list v\<rparr>)
      else if (arg = ''-p'' \<or> arg = ''--pkg'') \<and> v \<noteq> [] then
        parse_flags rest (c\<lparr>pkgPathArg := Some v\<rparr>)
      else if (arg = ''-e'' \<or> arg = ''--exclude-placeholder'') \<and> v \<noteq> [] then
        parse_flags rest (c\<lparr>cli_placeholder := v\<rparr>)
      else Inl [Err_unknown_argument arg, Err_usage])"

definition parseCliArgs :: "string list \<Rightarrow> event list + cli" where
  "parseCliArgs argv =
     (case argv of
        [] \<Rightarrow> Inl [Err_usage]
      | d # rest \<Rightarrow>
          parse_flags rest
            \<lparr>buildDirArg = d, cli_excludeNames = [], pkgPathArg = None,
             cli_placeholder = ''$RESERVED$''\<rparr>)"

section \<open>Locating the manifest\<close>

text \<open>
  \<open>findNearestPackageJson\<close> walks upwards with \<open>path.dirname\<close>.  Over an arbitrary
  \<open>dirname\<close> the walk need not end, so the function is partial: \<open>None\<close> is a walk that
  never returns, \<open>Some None\<close> is the result \<open>null\<close>.
\<close>

partial_function (option) findNearestPackageJson ::
  "pathlib \<Rightarrow> fsys \<Rightarrow> path \<Rightarrow> path \<Rightarrow> path option option" where
  "findNearestPackageJson pl fs dir rootDir =
     (if existsSync fs (path_join pl dir ''package.json'')
      then Some (Some (path_join pl dir ''package.json''))
      else if dir = rootDir \<or> path_dirname pl dir = dir then Some None
      else findNearestPackageJson pl fs (path_dirname pl dir) rootDir)"

text \<open>\<open>resolvePaths\<close> returns \<open>(pkgPath, pkgDir, distDir)\<close>, or the message of a fatal error.\<close>

definition resolvePaths ::
  "pathlib \<Rightarrow> fsys \<Rightarrow> path \<Rightarrow> string \<Rightarrow> string option
     \<Rightarrow> (event list + path \<times> path \<times> path) option" where
  "resolvePaths pl fs cwd_dir build_arg pkg_arg =
     (let buildPath = path_resolve pl cwd_dir build_arg;
          rootPkgPath = path_join pl cwd_dir ''package.json''
      in
        if \<not> existsSync fs buildPath \<or> \<not> isDirectory fs buildPath
        then Some (Inl [Err_build_dir buildPath])
        else
          (case (case pkg_arg of Some a \<Rightarrow> if a \<noteq> [] then Some a else None | None \<Rightarrow> None) of
             Some a \<Rightarrow>
               (let pkg_path = path_resolve pl cwd_dir a in
                if \<not> existsSync fs pkg_path then Some (Inl [Err_override_pkg pkg_path])
                else Some (Inr (pkg_path, path_dirname pl pkg_path, buildPath)))
           | None \<Rightarrow>
               (case findNearestPackageJson pl fs buildPath cwd_dir of
                  None \<Rightarrow> None
                | Some found \<Rightarrow>
                    (let pkg_path = (case found of
                                       Some f \<Rightarrow> if f \<noteq> [] then f else rootPkgPath
                                     | None \<Rightarrow> rootPkgPath)
                     in if \<not> existsSync fs pkg_path
                        then Some (Inl [Err_no_pkg buildPath cwd_dir])
                        else Some (Inr (pkg_path, path_dirname pl pkg_path, buildPath))))))"

section \<open>The manifest and the run\<close>

text \<open>
  A value read from a JSON text.  Numbers are opaque to the generator and stay a type
  parameter.  An object keeps its keys in order.
\<close>

datatype 'n json =
    JNull
  | JBool bool
  | JNum 'n
  | JStr string
  | JArr "'n json list"
  | JObj "(string \<times> 'n json) list"

text \<open>
  \<open>JSON.parse\<close> (\<open>None\<close> is a syntax error), \<open>JSON.stringify(_, null, 2)\<close>, the working
  directory and the file scan \<open>fg(['**/*.js', '**/*.d.ts'], {cwd})\<close> belong to the host.
\<close>

record 'n host =
  paths :: pathlib
  cwd :: path
  JSON_parse :: "string \<Rightarrow> 'n json option"
  JSON_stringify :: "'n json \<Rightarrow> string"
  fg :: "fsys \<Rightarrow> path \<Rightarrow> error + string list"

definition readJson :: "'n host \<Rightarrow> fsys \<Rightarrow> path \<Rightarrow> error + 'n json" where
  "readJson h fs filePath =
     (case readFileSync fs filePath of
        Inl e \<Rightarrow> Inl e
      | Inr text \<Rightarrow> (case JSON_parse h text of None \<Rightarrow> Inl SyntaxError | Some v \<Rightarrow> Inr v))"

definition writeJson :: "'n host \<Rightarrow> fsys \<Rightarrow> path \<Rightarrow> 'n json \<Rightarrow> error + fsys" where
  "writeJson h fs filePath ob = writeFileSync fs filePath (JSON_stringify h ob @ [CHR 0x0A])"

definition getDistFiles :: "'n host \<Rightarrow> fsys \<Rightarrow> path \<Rightarrow> error + string list" where
  "getDistFiles h fs dist_dir = fg h fs dist_dir"

text \<open>The exports map as a JSON value: an object of objects of strings.\<close>

definition exports_json :: "entry obj \<Rightarrow> 'n json" where
  "exports_json exportsMap =
     JObj (map (\<lambda>(k, e). (k, JObj (map (\<lambda>(field, r). (field, JStr r)) e))) exportsMap)"

text \<open>
  \<open>pkg.exports = v\<close>.  On an object the field is replaced in place, or appended when
  new.  On \<open>null\<close> the assignment throws.  On a number, string or boolean it does nothing
  (the script is not in strict mode); on an array it sets a property that is not an
  element, which the serialisation ignores.
\<close>

definition set_exports :: "'n json \<Rightarrow> 'n json \<Rightarrow> error + 'n json" where
  "set_exports pkg v =
     (case pkg of
        JObj kvs \<Rightarrow> Inr (JObj (obj_set kvs ''exports'' v))
      | JNull \<Rightarrow> Inl TypeError
      | _ \<Rightarrow> Inr pkg)"

text \<open>
  \<open>Object.keys(pkg.exports)\<close> in the final message throws when \<open>pkg.exports\<close> is
  undefined, which is the case exactly when \<open>pkg\<close> is a number, string or boolean.
\<close>

definition primitive :: "'n json \<Rightarrow> bool" where
  "primitive pkg = (case pkg of JBool b \<Rightarrow> True | JNum n \<Rightarrow> True | JStr s \<Rightarrow> True | _ \<Rightarrow> False)"

text \<open>
  \<open>main\<close>, with the handler of \<open>main().catch\<close>: the result is the exit code, the file
  system after the run and the lines printed.
\<close>

definition main :: "'n host \<Rightarrow> fsys \<Rightarrow> string list \<Rightarrow> (nat \<times> fsys \<times> event list) option" where
  "main h fs argv =
     (case parseCliArgs argv of
        Inl evs \<Rightarrow> Some (1, fs, evs)
      | Inr c \<Rightarrow>
     (case resolvePaths (paths h) fs (cwd h) (buildDirArg c) (pkgPathArg c) of
        None \<Rightarrow> None
      | Some (Inl evs) \<Rightarrow> Some (1, fs, evs)
      | Some (Inr (pkg_path, pkg_dir, dist_dir)) \<Rightarrow>
     (case readJson h fs pkg_path of
        Inl e \<Rightarrow> Some (1, fs, [Err_unexpected e])
      | Inr pkg \<Rightarrow>
     (case getDistFiles h fs dist_dir of
        Inl e \<Rightarrow> Some (1, fs, [Err_unexpected e])
      | Inr files \<Rightarrow>
     (case buildExportsMap (paths h) fs files
             \<lparr>distDir = dist_dir, pkgDir = pkg_dir, excludeNames = cli_excludeNames c,
              placeholder = cli_placeholder c\<rparr> of
        Inl (e, out) \<Rightarrow> Some (1, fs, out @ [Err_unexpected e])
      | Inr (exportsMap, out) \<Rightarrow>
     (case set_exports pkg (exports_json exportsMap) of
        Inl e \<Rightarrow> Some (1, fs, out @ [Err_unexpected e])
      | Inr pkg' \<Rightarrow>
     (case writeJson h fs pkg_path pkg' of
        Inl e \<Rightarrow> Some (1, fs, out @ [Err_unexpected e])
      | Inr fs' \<Rightarrow>
          if primitive pkg then Some (1, fs', out @ [Err_unexpected TypeError])
          else Some (0, fs', out @ [Log_updated pkg_path (obj_keys exportsMap)]))))))))"

section \<open>A POSIX host and a sample build directory\<close>

text \<open>
  The path functions on a POSIX host, for absolute paths without \<open>.\<close> and \<open>..\<close>
  segments: \<open>relative\<close> drops the common leading segments, ascends once for each
  segment left of the starting directory, and descends into the target.  They serve
  to run the generator on the sample directories below.
\<close>

fun strip_common :: "string list \<Rightarrow> string list \<Rightarrow> string list \<times> string list" where
  "strip_common (x # xs) (y # ys) = (if x = y then strip_common xs ys else (x # xs, y # ys))"
| "strip_common xs ys = (xs, ys)"

definition segments :: "path \<Rightarrow> string list" where
  "segments p = filter (\<lambda>s. s \<noteq> []) (split_on (CHR ''/'') p)"

definition posix_relative :: "path \<Rightarrow> path \<Rightarrow> path" where
  "posix_relative frm to =
     (case strip_common (segments frm) (segments to) of
        (up, down) \<Rightarrow> join_with ''/'' (replicate (length up) ''..'' @ down))"

definition posix_join :: "path \<Rightarrow> path \<Rightarrow> path" where
  "posix_join a b = a @ ''/'' @ b"

definition posix_resolve :: "path \<Rightarrow> path \<Rightarrow> path" where
  "posix_resolve a b = (if b \<noteq> [] \<and> hd b = CHR ''/'' then b else a @ ''/'' @ b)"

definition posix_dirname :: "path \<Rightarrow> path" where
  "posix_dirname p =
     (case rev (segments p) of
        [] \<Rightarrow> ''/''
      | s # ss \<Rightarrow> (if ss = [] then ''/'' else ''/'' @ join_with ''/'' (rev ss)))"

definition posix :: pathlib where
  "posix = \<lparr>path_join = posix_join, path_relative = posix_relative,
            path_resolve = posix_resolve, path_dirname = posix_dirname\<rparr>"


text \<open>
  A host for concrete runs: the POSIX path functions above, a serialiser with the
  two-space layout for values whose strings need no escaping, and a parser that knows
  the two manifest texts of the sample runs.
\<close>

definition quote :: "string \<Rightarrow> string" where
  "quote s = [CHR 0x22] @ s @ [CHR 0x22]"

definition render_members :: "nat \<Rightarrow> (string \<times> (nat \<Rightarrow> string)) list \<Rightarrow> string" where
  "render_members lvl members =
     (if members = [] then ''{}''
      else ''{'' @ [CHR 0x0A]
           @ join_with ('','' @ [CHR 0x0A])
               (map (\<lambda>(k, f). replicate (lvl + 2) (CHR '' '') @ quote k @ '': '' @ f (lvl + 2)) members)
           @ [CHR 0x0A] @ replicate lvl (CHR '' '') @ ''}'')"

primrec stringify_at :: "unit json \<Rightarrow> nat \<Rightarrow> string" where
  "stringify_at JNull lvl = ''null''"
| "stringify_at (JBool b) lvl = (if b then ''true'' else ''false'')"
| "stringify_at (JNum n) lvl = ''0''"
| "stringify_at (JStr s) lvl = quote s"
| "stringify_at (JArr xs) lvl = ''[]''"
| "stringify_at (JObj kvs) lvl = render_members lvl (map (map_prod id stringify_at) kvs)"

definition manifest_text :: string where
  "manifest_text = ''{'' @ quote ''name'' @ '': '' @ quote ''demo'' @ ''}''"

text \<open>A sample build directory, one level beside the manifest directory.\<close>

definition demo_fs :: fsys where
  "demo_fs =
     [''/repo/pkg/package.json'' \<mapsto> File manifest_text,
      ''/repo'' \<mapsto> Dir, ''/repo/pkg'' \<mapsto> Dir, ''/repo/build'' \<mapsto> Dir,
      ''/repo/build/index.js'' \<mapsto> File ''exports.a = 1'',
      ''/repo/build/index.d.ts'' \<mapsto> File ''export declare const a: number'',
      ''/repo/build/types.d.ts'' \<mapsto> File ''export type T = number'',
      ''/repo/build/internal/helper.js'' \<mapsto> File ''// $RESERVED$'',
      ''/repo/build/internal/helper.d.ts'' \<mapsto> File ''export {}'']"

definition demo_files :: "string list" where
  "demo_files = [''index.js'', ''index.d.ts'', ''types.d.ts'', ''internal/helper.js'', ''internal/helper.d.ts'']"

definition demo_opts :: opts where
  "demo_opts = \<lparr>distDir = ''/repo/build'', pkgDir = ''/repo/pkg'', excludeNames = [], placeholder = ''$RESERVED$''\<rparr>"

text \<open>The build directory of the scenario with two modules named \<open>foo\<close>.\<close>

definition foo_fs :: fsys where
  "foo_fs =
     [''/repo/package.json'' \<mapsto> File ''{}'',
      ''/repo'' \<mapsto> Dir, ''/repo/build'' \<mapsto> Dir, ''/repo/build/bar'' \<mapsto> Dir,
      ''/repo/build/foo.js'' \<mapsto> File ''a'',
      ''/repo/build/bar/foo.js'' \<mapsto> File ''b'',
      ''/repo/build/bar/baz.js'' \<mapsto> File ''c'']"

definition foo_files :: "string list" where
  "foo_files = [''foo.js'', ''bar/foo.js'', ''bar/baz.js'']"

definition foo_opts :: opts where
  "foo_opts = \<lparr>distDir = ''/repo/build'', pkgDir = ''/repo'', excludeNames = [''foo''],
               placeholder = ''$RESERVED$''\<rparr>"

definition foo_exports :: "entry obj" where
  "foo_exports =
     [(''./foo'', [(''import'', ''./build/foo.js''), (''require'', ''./build/foo.js'')]),
      (''./bar/foo'', [(''import'', ''./build/bar/foo.js''), (''require'', ''./build/bar/foo.js'')]),
      (''./bar/baz'', [(''import'', ''./build/bar/baz.js''), (''require'', ''./build/bar/baz.js'')])]"

definition demo_cli :: cli where
  "demo_cli = \<lparr>buildDirArg = ''build'', cli_excludeNames = [], pkgPathArg = None,
               cli_placeholder = ''$RESERVED$''\<rparr>"

definition demo_exports :: "entry obj" where
  "demo_exports =
     [(''./index'',
        [(''import'', ''./../build/index.js''),
         (''require'', ''./../build/index.js''),
         (''types'', ''./../build/index.d.ts'')]),
      (''./types'', [(''types'', ''./../build/types.d.ts'')])]"

definition demo_manifest :: "unit json" where
  "demo_manifest = JObj [(''name'', JStr ''demo'')]"

definition demo_manifest' :: "unit json" where
  "demo_manifest' = JObj [(''name'', JStr ''demo''), (''exports'', exports_json demo_exports)]"

definition demo_JSON_parse :: "string \<Rightarrow> unit json option" where
  "demo_JSON_parse t =
     (if t = manifest_text then Some demo_manifest
      else if t = stringify_at demo_manifest' 0 @ [CHR 0x0A] then Some demo_manifest'
      else None)"

definition demo_host :: "unit host" where
  "demo_host =
     \<lparr>paths = posix, cwd = ''/repo'', JSON_parse = demo_JSON_parse,
      JSON_stringify = (\<lambda>v. stringify_at v 0),
      fg = (\<lambda>fs d. if d = ''/repo/build'' then Inr demo_files else Inl (IOError d))\<rparr>"

definition demo_argv :: "string list" where
  "demo_argv = [''build'', ''-p'', ''pkg/package.json'']"

definition demo_cli_p :: cli where
  "demo_cli_p = \<lparr>buildDirArg = ''build'', cli_excludeNames = [],
                 pkgPathArg = Some ''pkg/package.json'', cli_placeholder = ''$RESERVED$''\<rparr>"

text \<open>The sample directory after a declaration file was removed behind the scan's back.\<close>

definition broken_fs :: fsys where
  "broken_fs = demo_fs(''/repo/build/types.d.ts'' := None)"



section \<open>Auxiliary notions for the proofs\<close>

definition js_of :: "string list \<Rightarrow> string \<Rightarrow> string option" where
  "js_of files b = (if b @ ''.js'' \<in> set files then Some (b @ ''.js'') else None)"

definition dts_of :: "string list \<Rightarrow> string \<Rightarrow> string option" where
  "dts_of files b = (if b @ ''.d.ts'' \<in> set files then Some (b @ ''.d.ts'') else None)"

definition readable :: "pathlib \<Rightarrow> fsys \<Rightarrow> opts \<Rightarrow> string \<Rightarrow> bool" where
  "readable pl fs os f =
     (case readFileSync fs (path_join pl (distDir os) f) of Inr c \<Rightarrow> True | Inl e \<Rightarrow> False)"

definition marker_in :: "pathlib \<Rightarrow> fsys \<Rightarrow> opts \<Rightarrow> string \<Rightarrow> bool" where
  "marker_in pl fs os f =
     (case readFileSync fs (path_join pl (distDir os) f) of
        Inr c \<Rightarrow> str_includes c (placeholder os) | Inl e \<Rightarrow> False)"

definition name_excluded :: "opts \<Rightarrow> string \<Rightarrow> bool" where
  "name_excluded os base = (basename base \<in> set (excludeNames os))"

definition marker_excluded :: "pathlib \<Rightarrow> fsys \<Rightarrow> opts \<Rightarrow> group \<Rightarrow> bool" where
  "marker_excluded pl fs os g =
     ((case js g of Some f \<Rightarrow> marker_in pl fs os f | None \<Rightarrow> False) \<or>
      (case dts g of Some f \<Rightarrow> marker_in pl fs os f | None \<Rightarrow> False))"

definition reads_ok :: "pathlib \<Rightarrow> fsys \<Rightarrow> opts \<Rightarrow> group \<Rightarrow> bool" where
  "reads_ok pl fs os g =
     ((case js g of Some f \<Rightarrow> readable pl fs os f | None \<Rightarrow> True) \<and>
      ((case js g of Some f \<Rightarrow> marker_in pl fs os f | None \<Rightarrow> False) \<or>
       (case dts g of Some f \<Rightarrow> readable pl fs os f | None \<Rightarrow> True)))"

definition retained :: "pathlib \<Rightarrow> fsys \<Rightarrow> opts \<Rightarrow> group obj \<Rightarrow> string \<Rightarrow> bool" where
  "retained pl fs os gr base =
     (\<not> name_excluded os base \<and> \<not> marker_excluded pl fs os (group_or_empty gr base))"

definition export_of :: "pathlib \<Rightarrow> opts \<Rightarrow> group obj \<Rightarrow> string \<Rightarrow> string \<times> entry" where
  "export_of pl os gr base =
     (''./'' @ base, make_entry pl (distDir os) (pkgDir os) (group_or_empty gr base))"


definition group_warns :: "pathlib \<Rightarrow> fsys \<Rightarrow> opts \<Rightarrow> group \<Rightarrow> event list" where
  "group_warns pl fs os g =
     (case js g of
        Some f \<Rightarrow>
          if marker_in pl fs os f then [Warn_skipping f (placeholder os)]
          else (case dts g of
                  Some d \<Rightarrow> if marker_in pl fs os d then [Warn_skipping d (placeholder os)] else []
                | None \<Rightarrow> [])
      | None \<Rightarrow>
          (case dts g of
             Some d \<Rightarrow> if marker_in pl fs os d then [Warn_skipping d (placeholder os)] else []
           | None \<Rightarrow> []))"


section \<open>Lemmas\<close>

lemma obj_get_set: "obj_get (obj_set ob k v) k' = (if k' = k then Some v else obj_get ob k')"
  by (induction ob) (auto simp: obj_get_def)

lemma obj_keys_set: "set (obj_keys (obj_set ob k v)) = insert k (set (obj_keys ob))"
  by (induction ob) (force simp: obj_keys_def)+

lemma obj_keys_set_distinct: "distinct (obj_keys ob) \<Longrightarrow> distinct (obj_keys (obj_set ob k v))"
proof (induction ob)
  case Nil
  then show ?case by (simp add: obj_keys_def)
next
  case (Cons a ob)
  have "set (obj_keys (obj_set ob k v)) = insert k (set (obj_keys ob))" by (rule obj_keys_set)
  with Cons show ?case by (cases a) (auto simp: obj_keys_def)
qed

lemma obj_get_None: "obj_get ob k = None \<longleftrightarrow> k \<notin> set (obj_keys ob)"
  by (simp add: obj_get_def obj_keys_def map_of_eq_None_iff)

lemma endsWith_iff: "endsWith s suf \<longleftrightarrow> (\<exists>b. s = b @ suf)"
proof
  assume "endsWith s suf"
  then have "s = take (length s - length suf) s @ suf"
    by (metis append_take_drop_id endsWith_def)
  then show "\<exists>b. s = b @ suf" ..
next
  assume "\<exists>b. s = b @ suf"
  then show "endsWith s suf" by (auto simp: endsWith_def)
qed



lemma dts_not_js: "\<not> endsWith (b @ ''.d.ts'') ''.js''"
  by (simp add: endsWith_def)

lemma grouped_snoc: "grouped (files @ [f]) = group_step (grouped files) f"
  by (simp add: grouped_def)

lemma grouped_get:
  "obj_get (grouped files) b =
     (if b @ ''.js'' \<in> set files \<or> b @ ''.d.ts'' \<in> set files
      then Some \<lparr>js = js_of files b, dts = dts_of files b\<rparr> else None)"
proof (induction files rule: rev_induct)
  case Nil
  then show ?case by (simp add: grouped_def obj_get_def)
next
  case (snoc f files)
  show ?case
  proof (cases "endsWith f ''.js''")
    case True
    then obtain c where f: "f = c @ ''.js''" by (auto simp: endsWith_iff)
    have s: "slice_end (c @ ''.js'') 3 = c" by (simp add: slice_end_def)
    have nd: "f \<noteq> b @ ''.d.ts''" using True dts_not_js by auto
    show ?thesis
      using True snoc nd
      by (auto simp: grouped_snoc group_step_def Let_def s obj_get_set f js_of_def dts_of_def empty_group_def group_or_empty_def)
  next
    case False
    note nj = False
    show ?thesis
    proof (cases "endsWith f ''.d.ts''")
      case True
      then obtain c where f: "f = c @ ''.d.ts''" by (auto simp: endsWith_iff)
      have s: "slice_end (c @ ''.d.ts'') 5 = c" by (simp add: slice_end_def)
      have nd: "f \<noteq> b @ ''.js''" using nj by (auto simp: endsWith_iff)
      show ?thesis
        using True nj snoc nd
        by (auto simp: grouped_snoc group_step_def Let_def s obj_get_set f js_of_def dts_of_def empty_group_def group_or_empty_def)
    next
      case False
      have "f \<noteq> b @ ''.js''" "f \<noteq> b @ ''.d.ts''" using nj False by (auto simp: endsWith_iff)
      then show ?thesis using nj False snoc
        by (auto simp: grouped_snoc group_step_def js_of_def dts_of_def)
    qed
  qed
qed

lemma grouped_distinct: "distinct (obj_keys (grouped files))"
proof (induction files rule: rev_induct)
  case Nil
  then show ?case by (simp add: grouped_def obj_keys_def)
next
  case (snoc f files)
  then show ?case
    by (simp add: grouped_snoc group_step_def Let_def obj_keys_set_distinct)
qed

lemma checkReserved_eq:
  "checkReserved pl fs f (distDir os) (placeholder os) =
     (if \<not> readable pl fs os f then Inl (IOError (path_join pl (distDir os) f))
      else if marker_in pl fs os f then Inr (True, [Warn_skipping f (placeholder os)])
      else Inr (False, []))"
  by (auto simp: checkReserved_def readable_def marker_in_def readFileSync_def
           split: option.splits node.splits)

lemma obj_set_fresh: "k \<notin> set (obj_keys ob) \<Longrightarrow> obj_set ob k v = ob @ [(k, v)]"
  by (induction ob) (auto simp: obj_keys_def)

lemma build_loop_name:
  "name_excluded os b \<Longrightarrow> build_loop pl fs os gr (b # bases) st = build_loop pl fs os gr bases st"
  by (cases st) (simp add: name_excluded_def)

lemma build_loop_fail:
  "\<not> name_excluded os b \<Longrightarrow> \<not> reads_ok pl fs os (group_or_empty gr b) \<Longrightarrow>
   isl (build_loop pl fs os gr (b # bases) st)"
  by (cases st; cases "js (group_or_empty gr b)"; cases "dts (group_or_empty gr b)")
     (auto simp: checkReserved_eq Let_def name_excluded_def reads_ok_def)

lemma build_loop_marker:
  "\<not> name_excluded os b \<Longrightarrow> reads_ok pl fs os (group_or_empty gr b) \<Longrightarrow>
   marker_excluded pl fs os (group_or_empty gr b) \<Longrightarrow>
   build_loop pl fs os gr (b # bases) (E, out) =
   build_loop pl fs os gr bases (E, out @ group_warns pl fs os (group_or_empty gr b))"
  by (cases "js (group_or_empty gr b)"; cases "dts (group_or_empty gr b)")
     (auto simp: checkReserved_eq Let_def name_excluded_def reads_ok_def marker_excluded_def
                 group_warns_def)

lemma build_loop_keep:
  "\<not> name_excluded os b \<Longrightarrow> reads_ok pl fs os (group_or_empty gr b) \<Longrightarrow>
   \<not> marker_excluded pl fs os (group_or_empty gr b) \<Longrightarrow>
   build_loop pl fs os gr (b # bases) (E, out) =
   build_loop pl fs os gr bases
     (obj_set E (fst (export_of pl os gr b)) (snd (export_of pl os gr b)), out)"
  by (cases "js (group_or_empty gr b)"; cases "dts (group_or_empty gr b)")
     (auto simp: checkReserved_eq Let_def name_excluded_def reads_ok_def marker_excluded_def
                 export_of_def)

declare build_loop.simps(2) [simp del]

lemma build_loop_Inr_iff:
  "(\<not> isl (build_loop pl fs os gr bases st)) \<longleftrightarrow>
   (\<forall>b \<in> set bases. name_excluded os b \<or> reads_ok pl fs os (group_or_empty gr b))"
proof (induction bases arbitrary: st)
  case Nil
  then show ?case by simp
next
  case (Cons b bases)
  obtain E out where st: "st = (E, out)" by (cases st)
  consider (n) "name_excluded os b"
    | (f) "\<not> name_excluded os b" "\<not> reads_ok pl fs os (group_or_empty gr b)"
    | (m) "\<not> name_excluded os b" "reads_ok pl fs os (group_or_empty gr b)"
          "marker_excluded pl fs os (group_or_empty gr b)"
    | (k) "\<not> name_excluded os b" "reads_ok pl fs os (group_or_empty gr b)"
          "\<not> marker_excluded pl fs os (group_or_empty gr b)"
    by blast
  then show ?case
  proof cases
    case n
    then show ?thesis by (simp add: build_loop_name Cons.IH)
  next
    case f
    then show ?thesis using build_loop_fail [OF f, of bases st] by auto
  next
    case m
    then show ?thesis unfolding st by (simp add: build_loop_marker Cons.IH)
  next
    case k
    then show ?thesis unfolding st by (simp add: build_loop_keep Cons.IH)
  qed
qed

lemma build_loop_exports:
  "build_loop pl fs os gr bases (E, out) = Inr (E', out') \<Longrightarrow> distinct bases \<Longrightarrow>
   (\<forall>b \<in> set bases. fst (export_of pl os gr b) \<notin> set (obj_keys E)) \<Longrightarrow>
   E' = E @ map (export_of pl os gr) (filter (retained pl fs os gr) bases)"
proof (induction bases arbitrary: E out)
  case Nil
  then show ?case by simp
next
  case (Cons b bases)
  have fresh: "fst (export_of pl os gr b) \<notin> set (obj_keys E)" using Cons.prems(3) by simp
  have d: "distinct bases" and nb: "b \<notin> set bases" using Cons.prems(2) by simp_all
  let ?E1 = "E @ [export_of pl os gr b]"
  have fresh1: "\<forall>c \<in> set bases. fst (export_of pl os gr c) \<notin> set (obj_keys ?E1)"
    using Cons.prems(3) nb by (auto simp: obj_keys_def export_of_def)
  have fresh0: "\<forall>c \<in> set bases. fst (export_of pl os gr c) \<notin> set (obj_keys E)"
    using Cons.prems(3) by simp
  have set1: "obj_set E (fst (export_of pl os gr b)) (snd (export_of pl os gr b)) = ?E1"
    using obj_set_fresh [OF fresh] by simp
  have ok: "name_excluded os b \<or> reads_ok pl fs os (group_or_empty gr b)"
    using build_loop_fail [of os b pl fs gr bases "(E, out)"] Cons.prems(1) by auto
  consider (n) "name_excluded os b"
    | (m) "\<not> name_excluded os b" "reads_ok pl fs os (group_or_empty gr b)"
          "marker_excluded pl fs os (group_or_empty gr b)"
    | (k) "\<not> name_excluded os b" "reads_ok pl fs os (group_or_empty gr b)"
          "\<not> marker_excluded pl fs os (group_or_empty gr b)"
    using ok by blast
  then show ?case
  proof cases
    case n
    then have "build_loop pl fs os gr bases (E, out) = Inr (E', out')"
      using Cons.prems(1) by (simp add: build_loop_name)
    from Cons.IH [OF this d fresh0] n show ?thesis by (simp add: retained_def)
  next
    case m
    then have "build_loop pl fs os gr bases (E, out @ group_warns pl fs os (group_or_empty gr b))
                 = Inr (E', out')"
      using Cons.prems(1) by (simp add: build_loop_marker)
    from Cons.IH [OF this d fresh0] m show ?thesis by (simp add: retained_def)
  next
    case k
    then have "build_loop pl fs os gr bases (?E1, out) = Inr (E', out')"
      using Cons.prems(1) by (simp add: build_loop_keep set1)
    from Cons.IH [OF this d fresh1] k show ?thesis by (simp add: retained_def)
  qed
qed

lemma for_in_keys_set: "set (for_in_keys ob) = set (obj_keys ob)"
  by (auto simp: for_in_keys_def)

lemma for_in_keys_distinct: "distinct (obj_keys ob) \<Longrightarrow> distinct (for_in_keys ob)"
  by (auto simp: for_in_keys_def)

lemma grouped_keys: "set (obj_keys (grouped files)) = {b. b @ ''.js'' \<in> set files \<or> b @ ''.d.ts'' \<in> set files}"
proof -
  have "b \<in> set (obj_keys (grouped files)) \<longleftrightarrow> b @ ''.js'' \<in> set files \<or> b @ ''.d.ts'' \<in> set files" for b
    using obj_get_None [of "grouped files" b] grouped_get [of files b]
    by (auto split: if_splits)
  then show ?thesis by blast
qed

lemma grouped_group:
  "group_or_empty (grouped files) b = \<lparr>js = js_of files b, dts = dts_of files b\<rparr>"
  by (simp add: group_or_empty_def grouped_get empty_group_def js_of_def dts_of_def)

lemma obj_get_exports:
  "obj_get (map (export_of pl os gr) (filter P bases)) (''./'' @ b) =
     (if b \<in> set bases \<and> P b then Some (snd (export_of pl os gr b)) else None)"
  by (induction bases) (auto simp: obj_get_def export_of_def)

lemma buildExportsMap_exports:
  assumes "buildExportsMap pl fs files os = Inr (E, out)"
  shows "E = map (export_of pl os (grouped files))
              (filter (retained pl fs os (grouped files)) (for_in_keys (grouped files)))"
proof -
  have "E = [] @ map (export_of pl os (grouped files))
              (filter (retained pl fs os (grouped files)) (for_in_keys (grouped files)))"
    using assms unfolding buildExportsMap_def
    by (rule build_loop_exports)
       (simp_all add: for_in_keys_distinct [OF grouped_distinct] obj_keys_def)
  then show ?thesis by simp
qed

lemma buildExportsMap_get:
  assumes "buildExportsMap pl fs files os = Inr (E, out)"
  shows "obj_get E (''./'' @ b) =
     (if (b @ ''.js'' \<in> set files \<or> b @ ''.d.ts'' \<in> set files) \<and> retained pl fs os (grouped files) b
      then Some (make_entry pl (distDir os) (pkgDir os) \<lparr>js = js_of files b, dts = dts_of files b\<rparr>)
      else None)"
  using grouped_keys [of files]
    obj_get_exports [of pl os "grouped files" "retained pl fs os (grouped files)"
                        "for_in_keys (grouped files)" b]
  by (simp add: buildExportsMap_exports [OF assms] for_in_keys_set export_of_def grouped_group)

lemma buildExportsMap_Inr_iff:
  "(\<not> isl (buildExportsMap pl fs files os)) \<longleftrightarrow>
   (\<forall>b. (b @ ''.js'' \<in> set files \<or> b @ ''.d.ts'' \<in> set files) \<longrightarrow>
        name_excluded os b \<or> reads_ok pl fs os \<lparr>js = js_of files b, dts = dts_of files b\<rparr>)"
  using grouped_keys [of files]
  by (auto simp: buildExportsMap_def build_loop_Inr_iff for_in_keys_set grouped_group)








lemma marker_in_excl [simp]: "marker_in pl fs (os\<lparr>excludeNames := xs\<rparr>) f = marker_in pl fs os f"
  by (simp add: marker_in_def split: sum.splits)

lemma readable_excl [simp]: "readable pl fs (os\<lparr>excludeNames := xs\<rparr>) f = readable pl fs os f"
  by (simp add: readable_def split: sum.splits)

lemma reads_ok_excl [simp]: "reads_ok pl fs (os\<lparr>excludeNames := xs\<rparr>) g = reads_ok pl fs os g"
  by (simp add: reads_ok_def split: option.splits)

lemma marker_excluded_excl [simp]:
  "marker_excluded pl fs (os\<lparr>excludeNames := xs\<rparr>) g = marker_excluded pl fs os g"
  by (simp add: marker_excluded_def split: option.splits)

lemma export_of_excl [simp]: "export_of pl (os\<lparr>excludeNames := xs\<rparr>) gr = export_of pl os gr"
  by (simp add: export_of_def fun_eq_iff)

lemma retained_split:
  "retained pl fs os gr b \<longleftrightarrow>
     basename b \<notin> set (excludeNames os) \<and> retained pl fs (os\<lparr>excludeNames := []\<rparr>) gr b"
  by (simp add: retained_def name_excluded_def)

lemma filter_exports:
  "filter (\<lambda>(k, e). basename (drop 2 k) \<notin> X) (map (export_of pl os gr) bs) =
   map (export_of pl os gr) (filter (\<lambda>b. basename b \<notin> X) bs)"
  by (induction bs) (auto simp: export_of_def)

lemma parse_flags_append:
  "parse_flags as c0 = Inr c \<Longrightarrow> parse_flags (as @ bs) c0 = parse_flags bs c"
  by (induction as c0 rule: parse_flags.induct) (auto split: if_splits)


lemma split_on_nonempty: "split_on c s \<noteq> []"
  by (induction s) (auto split: list.splits)

lemma split_on_no_sep: "p \<in> set (split_on c s) \<Longrightarrow> c \<notin> set p"
  by (induction s arbitrary: p) (auto split: if_splits list.splits)

lemma join_split: "join_with [c] (split_on c s) = s"
proof (induction s)
  case Nil
  then show ?case by simp
next
  case (Cons x xs)
  obtain y ys where ys: "split_on c xs = y # ys"
    using split_on_nonempty [of c xs] by (cases "split_on c xs") auto
  show ?case
  proof (cases "x = c")
    case True
    with Cons ys show ?thesis by simp
  next
    case False
    with Cons ys show ?thesis by (cases ys) auto
  qed
qed

lemma split_on_subset: "p \<in> set (split_on c s) \<Longrightarrow> set p \<subseteq> set s"
  by (induction s arbitrary: p) (fastforce split: if_splits list.splits)+

lemma trim_decomp:
  "s = takeWhile is_ws s @ trim s @ rev (takeWhile is_ws (rev (dropWhile is_ws s)))"
proof -
  have "rev (dropWhile is_ws (rev d)) @ rev (takeWhile is_ws (rev d)) = d" for d :: string
    by (metis rev_append rev_rev_ident takeWhile_dropWhile_id)
  then have "dropWhile is_ws s = trim s @ rev (takeWhile is_ws (rev (dropWhile is_ws s)))"
    by (simp add: trim_def)
  then show ?thesis
    by (metis takeWhile_dropWhile_id)
qed

lemma trim_ends:
  assumes "trim s \<noteq> []"
  shows "\<not> is_ws (hd (trim s)) \<and> \<not> is_ws (last (trim s))"
proof -
  let ?d = "dropWhile is_ws s"
  let ?r = "dropWhile is_ws (rev ?d)"
  have r: "?r \<noteq> []" using assms by (simp add: trim_def)
  then have "\<not> is_ws (hd ?r)" by (rule hd_dropWhile)
  then have l: "\<not> is_ws (last (trim s))" using r by (simp add: trim_def last_rev)
  have dne: "?d \<noteq> []" using r by (metis dropWhile.simps(1) rev.simps(1))
  then have hd: "\<not> is_ws (hd ?d)" by (rule hd_dropWhile)
  obtain t where t: "?d = trim s @ t"
    using trim_decomp [of s] by (metis append_eq_append_conv takeWhile_dropWhile_id)
  with assms have "hd ?d = hd (trim s)" by simp
  with hd l show ?thesis by simp
qed

lemma trim_all_ws: "list_all is_ws s \<Longrightarrow> trim s = []"
proof -
  assume "list_all is_ws s"
  then have "dropWhile is_ws s = []" by (induction s) auto
  then show ?thesis unfolding trim_def by (simp only: rev.simps dropWhile.simps)
qed

lemma exclude_list_empty:
  assumes "set v \<subseteq> {CHR '','', CHR '' ''}"
  shows "exclude_list v = []"
proof -
  have "trim p = []" if "p \<in> set (split_on (CHR '','') v)" for p
  proof -
    have "CHR '','' \<notin> set p" using that by (rule split_on_no_sep)
    moreover have "set p \<subseteq> set v" using that by (rule split_on_subset)
    ultimately have "list_all is_ws p" using assms by (auto simp: list_all_iff is_ws_def)
    then show ?thesis by (rule trim_all_ws)
  qed
  then show ?thesis by (auto simp: exclude_list_def filter_empty_conv)
qed

lemma str_includes_iff: "str_includes s p \<longleftrightarrow> (\<exists>a b. s = a @ p @ b)"
proof (induction s)
  case Nil
  then show ?case by auto
next
  case (Cons c cs)
  show ?case
  proof
    assume "str_includes (c # cs) p"
    then consider "prefix p (c # cs)" | "str_includes cs p" by auto
    then show "\<exists>a b. c # cs = a @ p @ b"
    proof cases
      case 1
      then obtain b where "c # cs = p @ b" by (auto simp: prefix_def)
      then have "c # cs = [] @ p @ b" by simp
      then show ?thesis by blast
    next
      case 2
      then obtain a b where "cs = a @ p @ b" using Cons by auto
      then have "c # cs = (c # a) @ p @ b" by simp
      then show ?thesis by blast
    qed
  next
    assume "\<exists>a b. c # cs = a @ p @ b"
    then obtain a b where ab: "c # cs = a @ p @ b" by blast
    show "str_includes (c # cs) p"
    proof (cases a)
      case Nil
      with ab have "prefix p (c # cs)" by (simp add: prefix_def)
      then show ?thesis by simp
    next
      case (Cons x xs)
      with ab have "cs = xs @ p @ b" by simp
      then have "str_includes cs p" using Cons.IH by blast
      then show ?thesis by simp
    qed
  qed
qed












lemma readFileSync_Inr: "readFileSync fs p = Inr t \<longleftrightarrow> fs p = Some (File t)"
  by (auto simp: readFileSync_def split: option.splits node.splits)

lemma readJson_Inr:
  "readJson h fs p = Inr v \<longleftrightarrow> (\<exists>t. fs p = Some (File t) \<and> JSON_parse h t = Some v)"
proof (cases "readFileSync fs p")
  case (Inl e)
  then have "\<nexists>t. fs p = Some (File t)"
    by (auto simp: readFileSync_def split: option.splits node.splits)
  with Inl show ?thesis by (simp add: readJson_def)
next
  case (Inr t)
  then have "fs p = Some (File t)" by (simp add: readFileSync_Inr)
  with Inr show ?thesis by (auto simp: readJson_def split: option.splits)
qed

lemma writeJson_file:
  "fs p = Some (File t) \<Longrightarrow>
   writeJson h fs p v = Inr (fs(p \<mapsto> File (JSON_stringify h v @ [CHR 0x0A])))"
  by (simp add: writeJson_def writeFileSync_def)

lemma main_stages:
  assumes "parseCliArgs argv = Inr c"
    and "resolvePaths (paths h) fs (cwd h) (buildDirArg c) (pkgPathArg c) = Some (Inr (pp, pd, dd))"
    and "readJson h fs pp = Inr pkg"
    and "getDistFiles h fs dd = Inr files"
    and "buildExportsMap (paths h) fs files
           \<lparr>distDir = dd, pkgDir = pd, excludeNames = cli_excludeNames c,
            placeholder = cli_placeholder c\<rparr> = Inr (E, w)"
    and "set_exports pkg (exports_json E) = Inr pkg'"
  shows "main h fs argv =
           Some (if primitive pkg then 1 else 0,
                 fs(pp \<mapsto> File (JSON_stringify h pkg' @ [CHR 0x0A])),
                 w @ [if primitive pkg then Err_unexpected TypeError
                      else Log_updated pp (obj_keys E)])"
proof -
  from assms(3) obtain t where t: "fs pp = Some (File t)" by (auto simp: readJson_Inr)
  show ?thesis
    unfolding main_def
    by (simp add: assms writeJson_file [of fs pp t, OF t])
qed

lemma main_changed:
  assumes "main h fs argv = Some (code, fs', out)" and "fs' \<noteq> fs"
  shows "\<exists>c pp pd dd pkg files E w pkg'.
           parseCliArgs argv = Inr c \<and>
           resolvePaths (paths h) fs (cwd h) (buildDirArg c) (pkgPathArg c) = Some (Inr (pp, pd, dd)) \<and>
           readJson h fs pp = Inr pkg \<and>
           getDistFiles h fs dd = Inr files \<and>
           buildExportsMap (paths h) fs files
             \<lparr>distDir = dd, pkgDir = pd, excludeNames = cli_excludeNames c,
              placeholder = cli_placeholder c\<rparr> = Inr (E, w) \<and>
           set_exports pkg (exports_json E) = Inr pkg' \<and>
           fs' = fs(pp \<mapsto> File (JSON_stringify h pkg' @ [CHR 0x0A]))"
proof -
  from assms obtain c where c: "parseCliArgs argv = Inr c"
    by (cases "parseCliArgs argv") (auto simp: main_def)
  from assms c obtain pp pd dd where
    r: "resolvePaths (paths h) fs (cwd h) (buildDirArg c) (pkgPathArg c) = Some (Inr (pp, pd, dd))"
    by (cases "resolvePaths (paths h) fs (cwd h) (buildDirArg c) (pkgPathArg c)")
       (auto simp: main_def split: sum.splits)
  from assms c r obtain pkg where j: "readJson h fs pp = Inr pkg"
    by (cases "readJson h fs pp") (auto simp: main_def)
  from assms c r j obtain files where f: "getDistFiles h fs dd = Inr files"
    by (cases "getDistFiles h fs dd") (auto simp: main_def)
  let ?os = "\<lparr>distDir = dd, pkgDir = pd, excludeNames = cli_excludeNames c,
              placeholder = cli_placeholder c\<rparr>"
  from assms c r j f obtain E w where b: "buildExportsMap (paths h) fs files ?os = Inr (E, w)"
    by (cases "buildExportsMap (paths h) fs files ?os") (auto simp: main_def)
  from assms c r j f b obtain pkg' where s: "set_exports pkg (exports_json E) = Inr pkg'"
    by (cases "set_exports pkg (exports_json E)") (auto simp: main_def)
  from main_stages [OF c r j f b s] assms(1)
  have "fs' = fs(pp \<mapsto> File (JSON_stringify h pkg' @ [CHR 0x0A]))" by simp
  with c r j f b s show ?thesis by blast
qed

section \<open>Properties of the generator\<close>

lemma demo_grouped:
  "grouped demo_files =
     [(''index'', \<lparr>js = Some ''index.js'', dts = Some ''index.d.ts''\<rparr>),
      (''types'', \<lparr>js = None, dts = Some ''types.d.ts''\<rparr>),
      (''internal/helper'',
       \<lparr>js = Some ''internal/helper.js'', dts = Some ''internal/helper.d.ts''\<rparr>)]"
  by (simp add: demo_files_def grouped_def group_step_def endsWith_def slice_end_def Let_def
        group_or_empty_def obj_get_def empty_group_def)

lemma demo_keys: "for_in_keys (grouped demo_files) = [''index'', ''types'', ''internal/helper'']"
  by (simp add: demo_grouped for_in_keys_def obj_keys_def is_array_index_def is_digit_def)







lemma foo_grouped:
  "grouped foo_files =
     [(''foo'', \<lparr>js = Some ''foo.js'', dts = None\<rparr>),
      (''bar/foo'', \<lparr>js = Some ''bar/foo.js'', dts = None\<rparr>),
      (''bar/baz'', \<lparr>js = Some ''bar/baz.js'', dts = None\<rparr>)]"
  by (simp add: foo_files_def grouped_def group_step_def endsWith_def slice_end_def Let_def
        group_or_empty_def obj_get_def empty_group_def)

lemma foo_keys: "for_in_keys (grouped foo_files) = [''foo'', ''bar/foo'', ''bar/baz'']"
  by (simp add: foo_grouped for_in_keys_def obj_keys_def is_array_index_def is_digit_def)

lemma foo_checks:
  "checkReserved posix foo_fs ''foo.js'' ''/repo/build'' ''$RESERVED$'' = Inr (False, [])"
  "checkReserved posix foo_fs ''bar/foo.js'' ''/repo/build'' ''$RESERVED$'' = Inr (False, [])"
  "checkReserved posix foo_fs ''bar/baz.js'' ''/repo/build'' ''$RESERVED$'' = Inr (False, [])"
  by (simp_all add: checkReserved_def readFileSync_def posix_def posix_join_def foo_fs_def)

lemma foo_run_all:
  "buildExportsMap posix foo_fs foo_files (foo_opts\<lparr>excludeNames := []\<rparr>) = Inr (foo_exports, [])"
  unfolding buildExportsMap_def foo_keys
  apply (simp add: build_loop.simps foo_grouped foo_opts_def basename_def group_or_empty_def
           obj_get_def foo_checks)
  apply (simp add: make_entry_def posix_def posix_join_def posix_relative_def segments_def
           unbackslash_def Let_def foo_exports_def)
  done

lemma demo_parse: "parseCliArgs [''build''] = Inr demo_cli"
  by (simp add: parseCliArgs_def demo_cli_def)


lemma demo_parse_argv: "parseCliArgs demo_argv = Inr demo_cli_p"
  by (simp add: parseCliArgs_def demo_argv_def demo_cli_p_def)

lemma posix_paths:
  "path_resolve posix ''/repo'' ''build'' = ''/repo/build''"
  "path_resolve posix ''/repo'' ''pkg/package.json'' = ''/repo/pkg/package.json''"
  "path_dirname posix ''/repo/pkg/package.json'' = ''/repo/pkg''"
  by (simp_all add: posix_def posix_resolve_def posix_dirname_def segments_def)


lemma broken_resolve:
  "resolvePaths (paths demo_host) broken_fs (cwd demo_host) (buildDirArg demo_cli_p) (pkgPathArg demo_cli_p)
     = Some (Inr (''/repo/pkg/package.json'', ''/repo/pkg'', ''/repo/build''))"
  by (simp add: resolvePaths_def demo_host_def demo_cli_p_def posix_paths Let_def
        existsSync_def isDirectory_def demo_fs_def broken_fs_def)


lemma broken_readJson: "readJson demo_host broken_fs ''/repo/pkg/package.json'' = Inr demo_manifest"
  by (simp add: readJson_def readFileSync_def demo_fs_def demo_host_def demo_JSON_parse_def
        broken_fs_def)

lemma demo_scan: "getDistFiles demo_host fsx ''/repo/build'' = Inr demo_files"
  by (simp add: getDistFiles_def demo_host_def)

lemma demo_opts_cli_p:
  "\<lparr>distDir = ''/repo/build'', pkgDir = ''/repo/pkg'', excludeNames = cli_excludeNames demo_cli_p,
    placeholder = cli_placeholder demo_cli_p\<rparr> = demo_opts"
  by (simp add: demo_cli_p_def demo_opts_def)









lemma broken_checks:
  "checkReserved posix broken_fs ''index.js'' ''/repo/build'' ''$RESERVED$'' = Inr (False, [])"
  "checkReserved posix broken_fs ''index.d.ts'' ''/repo/build'' ''$RESERVED$'' = Inr (False, [])"
  "checkReserved posix broken_fs ''types.d.ts'' ''/repo/build'' ''$RESERVED$'' =
     Inl (IOError ''/repo/build/types.d.ts'')"
  by (simp_all add: checkReserved_def readFileSync_def posix_def posix_join_def demo_fs_def
        broken_fs_def manifest_text_def)

lemma broken_build:
  "buildExportsMap (paths demo_host) broken_fs demo_files
     \<lparr>distDir = ''/repo/build'', pkgDir = ''/repo/pkg'', excludeNames = cli_excludeNames demo_cli_p,
      placeholder = cli_placeholder demo_cli_p\<rparr>
   = Inl (IOError ''/repo/build/types.d.ts'', [])"
  unfolding demo_opts_cli_p buildExportsMap_def demo_keys
  by (simp add: build_loop.simps demo_grouped demo_opts_def basename_def group_or_empty_def
        obj_get_def broken_checks demo_host_def)

lemma broken_main:
  "main demo_host broken_fs demo_argv =
     Some (1, broken_fs, [Err_unexpected (IOError ''/repo/build/types.d.ts'')])"
  unfolding main_def demo_parse_argv sum.case broken_resolve option.case prod.case
    broken_readJson demo_scan broken_build
  by simp







text \<open>
  C5.  Name exclusion removes exactly the module paths whose basename is in the list:
  if the run with an empty exclusion list returns the map \<open>E0\<close>, then the run with
  the list \<open>excludeNames\<close> returns too, and its map is \<open>E0\<close> without the entries whose
  key has a basename in the list, the other entries unchanged and in the same order.
  The directory part of the module path plays no role.
\<close>

theorem C5_name_exclusion_exact:
  assumes "buildExportsMap pl fs files (os\<lparr>excludeNames := []\<rparr>) = Inr (E0, out0)"
  shows "\<exists>E out. buildExportsMap pl fs files os = Inr (E, out) \<and>
           E = filter (\<lambda>(k, e). basename (drop 2 k) \<notin> set (excludeNames os)) E0 \<and>
           (\<forall>b. obj_get E (''./'' @ b) =
                  (if basename b \<in> set (excludeNames os) then None else obj_get E0 (''./'' @ b)))"
proof -
  have "\<not> isl (buildExportsMap pl fs files (os\<lparr>excludeNames := []\<rparr>))"
    using assms by simp
  then have "\<not> isl (buildExportsMap pl fs files os)"
    unfolding buildExportsMap_Inr_iff by (auto simp: name_excluded_def)
  then obtain E out where run: "buildExportsMap pl fs files os = Inr (E, out)"
    by (cases "buildExportsMap pl fs files os") auto
  have "filter (retained pl fs os gr) ks =
          filter (\<lambda>b. basename b \<notin> set (excludeNames os))
            (filter (retained pl fs (os\<lparr>excludeNames := []\<rparr>) gr) ks)" for gr ks
    unfolding filter_filter
    by (rule filter_cong) (auto simp: retained_def name_excluded_def)
  then have E: "E = filter (\<lambda>(k, e). basename (drop 2 k) \<notin> set (excludeNames os)) E0"
    unfolding buildExportsMap_exports [OF run] buildExportsMap_exports [OF assms]
    by (simp add: filter_exports)
  have "obj_get E (''./'' @ b) =
          (if basename b \<in> set (excludeNames os) then None else obj_get E0 (''./'' @ b))" for b
    unfolding buildExportsMap_get [OF run] buildExportsMap_get [OF assms]
    by (simp add: retained_split [of pl fs os])
  with run E show ?thesis by blast
qed

theorem C5_name_exclusion_exact_witness:
  "buildExportsMap posix foo_fs foo_files (foo_opts\<lparr>excludeNames := []\<rparr>) = Inr (foo_exports, []) \<and>
   obj_keys foo_exports = [''./foo'', ''./bar/foo'', ''./bar/baz''] \<and>
   excludeNames foo_opts = [''foo''] \<and>
   (\<exists>E out. buildExportsMap posix foo_fs foo_files foo_opts = Inr (E, out) \<and>
      obj_keys E = [''./bar/baz''])"
proof -
  from C5_name_exclusion_exact [OF foo_run_all]
  obtain E out where run: "buildExportsMap posix foo_fs foo_files foo_opts = Inr (E, out)"
    and E: "E = filter (\<lambda>(k, e). basename (drop 2 k) \<notin> set (excludeNames foo_opts)) foo_exports"
    by blast
  have "obj_keys E = [''./bar/baz'']"
    unfolding E by (simp add: foo_exports_def foo_opts_def basename_def obj_keys_def)
  with run foo_run_all show ?thesis
    by (auto simp: foo_exports_def obj_keys_def foo_opts_def)
qed






text \<open>
  C10.  As stated, for every value: false for the empty string, which the flag does
  not take as a value (the arguments are rejected with the usage text).  For every
  other value \<open>v\<close>, appending \<open>-i v\<close> (or \<open>--exclude v\<close>) to accepted arguments sets the
  exclusion list to the pieces of \<open>v\<close> between commas, each stripped of the white
  space at its ends, without the pieces that become empty.  The pieces contain no
  comma and give \<open>v\<close> back when joined with commas; a trimmed piece is the piece
  without a prefix and a suffix of white space, and neither starts nor ends with
  white space.  A value of commas and spaces only gives the empty list.
\<close>

theorem C10_exclude_list:
  assumes "parseCliArgs (d # as) = Inr c" and "flag = ''-i'' \<or> flag = ''--exclude''" and "v \<noteq> []"
  shows "parseCliArgs (d # as @ [flag, v]) = Inr (c\<lparr>cli_excludeNames := exclude_list v\<rparr>) \<and>
         exclude_list v = filter (\<lambda>s. s \<noteq> []) (map trim (split_on (CHR '','') v)) \<and>
         join_with '','' (split_on (CHR '','') v) = v \<and>
         (\<forall>p \<in> set (split_on (CHR '','') v).
            CHR '','' \<notin> set p \<and>
            (\<exists>l r. p = l @ trim p @ r \<and> list_all is_ws l \<and> list_all is_ws r) \<and>
            (trim p \<noteq> [] \<longrightarrow> \<not> is_ws (hd (trim p)) \<and> \<not> is_ws (last (trim p)))) \<and>
         (set v \<subseteq> {CHR '','', CHR '' ''} \<longrightarrow> exclude_list v = [])"
proof -
  let ?c0 = "\<lparr>buildDirArg = d, cli_excludeNames = [], pkgPathArg = None,
              cli_placeholder = ''$RESERVED$''\<rparr>"
  have pf: "parse_flags as ?c0 = Inr c" using assms(1) by (simp add: parseCliArgs_def)
  have 1: "parseCliArgs (d # as @ [flag, v]) = Inr (c\<lparr>cli_excludeNames := exclude_list v\<rparr>)"
    using assms(2,3) parse_flags_append [OF pf, of "[flag, v]"]
    by (auto simp: parseCliArgs_def)
  have 2: "\<exists>l r. p = l @ trim p @ r \<and> list_all is_ws l \<and> list_all is_ws r" for p
  proof -
    have "list_all is_ws (takeWhile is_ws p)"
      by (simp add: list_all_iff) (meson set_takeWhileD)
    moreover have "list_all is_ws (rev (takeWhile is_ws (rev (dropWhile is_ws p))))"
      by (simp add: list_all_iff) (meson set_takeWhileD)
    ultimately show ?thesis using trim_decomp [of p] by blast
  qed
  show ?thesis
    using 1 2 join_split [of "CHR '',''" v] split_on_no_sep [of _ "CHR '',''" v]
      trim_ends exclude_list_empty [of v]
    by (auto simp: exclude_list_def)
qed

theorem C10_exclude_list_witness:
  "parseCliArgs [''build''] = Inr demo_cli \<and>
   parseCliArgs [''build'', ''-i'', '' foo , ,bar''] =
     Inr (demo_cli\<lparr>cli_excludeNames := [''foo'', ''bar'']\<rparr>) \<and>
   set '', ,'' \<subseteq> {CHR '','', CHR '' ''} \<and>
   parseCliArgs [''build'', ''--exclude'', '', ,''] = Inr (demo_cli\<lparr>cli_excludeNames := []\<rparr>)"
proof -
  have ne: "'' foo , ,bar'' \<noteq> []" "'', ,'' \<noteq> []" by simp_all
  have sub: "set '', ,'' \<subseteq> {CHR '','', CHR '' ''}" by simp
  from C10_exclude_list [OF demo_parse disjI1 [OF refl] ne(1)]
  have 1: "parseCliArgs (''build'' # [] @ [''-i'', '' foo , ,bar'']) =
             Inr (demo_cli\<lparr>cli_excludeNames := exclude_list '' foo , ,bar''\<rparr>)"
    and 2: "exclude_list '' foo , ,bar'' =
             filter (\<lambda>s. s \<noteq> []) (map trim (split_on (CHR '','') '' foo , ,bar''))"
    by blast+
  have 3: "filter (\<lambda>s. s \<noteq> []) (map trim (split_on (CHR '','') '' foo , ,bar'')) = [''foo'', ''bar'']"
    by (simp add: trim_def is_ws_def)
  from C10_exclude_list [OF demo_parse disjI2 [OF refl] ne(2)] sub
  have 4: "parseCliArgs (''build'' # [] @ [''--exclude'', '', ,'']) =
             Inr (demo_cli\<lparr>cli_excludeNames := exclude_list '', ,''\<rparr>)"
    and 5: "exclude_list '', ,'' = []"
    by blast+
  from demo_parse 1 2 3 4 5 sub show ?thesis by simp
qed

theorem C10_exclude_list_counterexample:
  "parseCliArgs [''build'', ''-i'', ''''] = Inl [Err_unknown_argument ''-i'', Err_usage] \<and>
   filter (\<lambda>s. s \<noteq> []) (map trim (split_on (CHR '','') '''')) = []"
  by (simp add: parseCliArgs_def trim_def)





text \<open>
  C7.  Whenever a run returns, the file system is either untouched, or it differs
  from the old one in the manifest file alone, which then holds the serialisation of
  the manifest with the complete exports map; that happens only when parsing the
  arguments, locating the manifest, reading it, scanning, building the map and
  assigning it have all succeeded.  In particular a run in which building the map fails
  leaves the file system as it was.  (A run can still end with exit code 1 after the
  write: exactly when the manifest is a bare number, string or boolean.)
\<close>

theorem C7_no_partial_write:
  assumes "main h fs argv = Some (code, fs', out)"
  shows "(fs' = fs \<or>
          (\<exists>c pp pd dd pkg files E w pkg'.
            parseCliArgs argv = Inr c \<and>
            resolvePaths (paths h) fs (cwd h) (buildDirArg c) (pkgPathArg c) = Some (Inr (pp, pd, dd)) \<and>
            readJson h fs pp = Inr pkg \<and>
            getDistFiles h fs dd = Inr files \<and>
            buildExportsMap (paths h) fs files
              \<lparr>distDir = dd, pkgDir = pd, excludeNames = cli_excludeNames c,
               placeholder = cli_placeholder c\<rparr> = Inr (E, w) \<and>
            set_exports pkg (exports_json E) = Inr pkg' \<and>
            fs' = fs(pp \<mapsto> File (JSON_stringify h pkg' @ [CHR 0x0A])) \<and>
            code = (if primitive pkg then 1 else 0)))
       \<and> (\<forall>c pp pd dd files.
            parseCliArgs argv = Inr c \<and>
            resolvePaths (paths h) fs (cwd h) (buildDirArg c) (pkgPathArg c) = Some (Inr (pp, pd, dd)) \<and>
            getDistFiles h fs dd = Inr files \<and>
            isl (buildExportsMap (paths h) fs files
                   \<lparr>distDir = dd, pkgDir = pd, excludeNames = cli_excludeNames c,
                    placeholder = cli_placeholder c\<rparr>)
            \<longrightarrow> fs' = fs)"
proof -
  have chg: "\<exists>c pp pd dd pkg files E w pkg'.
            parseCliArgs argv = Inr c \<and>
            resolvePaths (paths h) fs (cwd h) (buildDirArg c) (pkgPathArg c) = Some (Inr (pp, pd, dd)) \<and>
            readJson h fs pp = Inr pkg \<and>
            getDistFiles h fs dd = Inr files \<and>
            buildExportsMap (paths h) fs files
              \<lparr>distDir = dd, pkgDir = pd, excludeNames = cli_excludeNames c,
               placeholder = cli_placeholder c\<rparr> = Inr (E, w) \<and>
            set_exports pkg (exports_json E) = Inr pkg' \<and>
            fs' = fs(pp \<mapsto> File (JSON_stringify h pkg' @ [CHR 0x0A])) \<and>
            code = (if primitive pkg then 1 else 0)"
    if ne: "fs' \<noteq> fs"
  proof -
    from main_changed [OF assms ne] obtain c pp pd dd pkg files E w pkg' where
      st: "parseCliArgs argv = Inr c"
          "resolvePaths (paths h) fs (cwd h) (buildDirArg c) (pkgPathArg c) = Some (Inr (pp, pd, dd))"
          "readJson h fs pp = Inr pkg"
          "getDistFiles h fs dd = Inr files"
          "buildExportsMap (paths h) fs files
              \<lparr>distDir = dd, pkgDir = pd, excludeNames = cli_excludeNames c,
               placeholder = cli_placeholder c\<rparr> = Inr (E, w)"
          "set_exports pkg (exports_json E) = Inr pkg'"
      and fs': "fs' = fs(pp \<mapsto> File (JSON_stringify h pkg' @ [CHR 0x0A]))"
      by blast
    from main_stages [OF st] assms have "code = (if primitive pkg then 1 else 0)" by simp
    with st fs' show ?thesis by blast
  qed
  have fail: "fs' = fs"
    if "parseCliArgs argv = Inr c"
      "resolvePaths (paths h) fs (cwd h) (buildDirArg c) (pkgPathArg c) = Some (Inr (pp, pd, dd))"
      "getDistFiles h fs dd = Inr files"
      "isl (buildExportsMap (paths h) fs files
                   \<lparr>distDir = dd, pkgDir = pd, excludeNames = cli_excludeNames c,
                    placeholder = cli_placeholder c\<rparr>)"
    for c pp pd dd files
  proof (rule ccontr)
    assume "fs' \<noteq> fs"
    from chg [OF this] that show False by auto
  qed
  from chg fail show ?thesis by blast
qed

theorem C7_no_partial_write_witness:
  "main demo_host broken_fs demo_argv =
     Some (1, broken_fs, [Err_unexpected (IOError ''/repo/build/types.d.ts'')]) \<and>
   parseCliArgs demo_argv = Inr demo_cli_p \<and>
   resolvePaths (paths demo_host) broken_fs (cwd demo_host) (buildDirArg demo_cli_p)
       (pkgPathArg demo_cli_p)
     = Some (Inr (''/repo/pkg/package.json'', ''/repo/pkg'', ''/repo/build'')) \<and>
   getDistFiles demo_host broken_fs ''/repo/build'' = Inr demo_files \<and>
   isl (buildExportsMap (paths demo_host) broken_fs demo_files
          \<lparr>distDir = ''/repo/build'', pkgDir = ''/repo/pkg'',
           excludeNames = cli_excludeNames demo_cli_p,
           placeholder = cli_placeholder demo_cli_p\<rparr>) \<and>
   broken_fs = broken_fs"
proof -
  have failed: "isl (buildExportsMap (paths demo_host) broken_fs demo_files
          \<lparr>distDir = ''/repo/build'', pkgDir = ''/repo/pkg'',
           excludeNames = cli_excludeNames demo_cli_p,
           placeholder = cli_placeholder demo_cli_p\<rparr>)"
    unfolding broken_build by simp
  note stages = conjI [OF demo_parse_argv conjI [OF broken_resolve conjI [OF demo_scan failed]]]
  from C7_no_partial_write [OF broken_main, THEN conjunct2, rule_format, OF stages]
  have same: "broken_fs = broken_fs" .
  show ?thesis
    by (intro conjI broken_main demo_parse_argv broken_resolve demo_scan failed same)
qed

end
